theory Spec2Isabelle
  imports Main "HOL-Library.Multiset"
begin

section \<open>Data model of the booking wizard\<close>

text \<open>
  The interfaces at the head of the booking component, as records. The \<open>icon\<close> fields
  hold rendered markup and take no part in any transition, so they are left out; every
  other field is kept. An optional field \<open>f?: T\<close> is a \<open>T option\<close>. The step number,
  which the component only counts with, is an \<open>int\<close>.

  Costs are numbers of the source language, which adds them with rounding. Their type
  is left open as \<open>'n\<close>, with an addition \<open>+\<close> and a zero \<open>0\<close> of which no law is
  assumed: nothing below relies on addition being exact, associative or commutative.
\<close>

datatype device_type = Mobile | Laptop

record Device =
  device_id :: string
  device_name :: string
  device_kind :: device_type

record DeviceSubtype =
  subtype_id :: string
  subtype_name :: string
  parentType :: device_type

record Brand =
  brand_oid :: "string option"
  brand_name :: string
  models :: "string list option"
  repairCount :: "int option"
  brand_createdAt :: "string option"
  brand_updatedAt :: "string option"

record 'n RepairService =
  service_name :: string
  estimatedCost :: 'n
  description :: string
  screenType :: "string option"
  includesKeyboard :: "bool option"
  includesStylus :: "bool option"
  includesControllers :: "bool option"
  service_oid :: "string option"

record 'n RepairDocument =
  doc_oid :: string
  doc_brand :: string
  doc_model :: string
  repairOptions :: "'n RepairService list"
  doc_createdAt :: "string option"
  doc_updatedAt :: "string option"

record RepairBookingProps =
  deviceType :: "device_type option"
  onBackToHome :: bool  \<comment> \<open>whether the optional callback was passed\<close>

record AppointmentData =
  date :: string
  time :: string
  name :: string
  firstName :: string
  email :: string
  phone :: string

record Loading =
  loading_brands :: bool
  loading_models :: bool
  submitting :: bool

text \<open>The \<open>useState\<close> cells of the component, in the order they are declared.\<close>

record 'n booking =
  currentStep :: int
  selectedDevice :: "Device option"
  selectedSubtype :: "DeviceSubtype option"
  selectedBrand :: "Brand option"
  selectedRepairDoc :: "'n RepairDocument option"
  selectedServices :: "string list"
  searchTerm :: string
  appointmentData :: AppointmentData
  isMobile :: bool
  brands :: "Brand list"
  repairDocs :: "'n RepairDocument list"
  isLoading :: Loading
  error :: "string option"
  showSuccessPopup :: bool

text \<open>Letters of the user-facing texts that lie outside ASCII (UTF-16 code units).\<close>

definition e_acute :: char where
  "e_acute = CHR 0xE9"

definition E_acute :: char where
  "E_acute = CHR 0xC9"

definition API_BASE_URL :: string where
  "API_BASE_URL = ''https://rppe4wbr3k.execute-api.eu-west-3.amazonaws.com/api''"

definition devices :: "Device list" where
  "devices =
    [\<lparr>device_id = ''mobile'',
      device_name = ''T'' @ [e_acute] @ ''l'' @ [e_acute] @ ''phone Mobile'',
      device_kind = Mobile\<rparr>,
     \<lparr>device_id = ''laptop'', device_name = ''Ordinateur Portable'', device_kind = Laptop\<rparr>]"

definition deviceSubtypes :: "DeviceSubtype list" where
  "deviceSubtypes =
    [\<lparr>subtype_id = ''mobile'',
      subtype_name = ''T'' @ [e_acute] @ ''l'' @ [e_acute] @ ''phone Mobile'',
      parentType = Mobile\<rparr>,
     \<lparr>subtype_id = ''tablet'', subtype_name = ''Tablette'', parentType = Mobile\<rparr>,
     \<lparr>subtype_id = ''laptop'', subtype_name = ''Ordinateur Portable'', parentType = Laptop\<rparr>,
     \<lparr>subtype_id = ''console'', subtype_name = ''Console de Jeu'', parentType = Laptop\<rparr>]"

definition emptyAppointment :: AppointmentData where
  "emptyAppointment =
    \<lparr>date = [], time = [], name = [], firstName = [], email = [], phone = []\<rparr>"

section \<open>Service selection and pricing\<close>

text \<open>
  \<open>toggleService\<close> is the updater passed to \<open>setSelectedServices\<close>:
  \<open>prev.includes(id) ? prev.filter(x => x !== id) : [...prev, id]\<close>.
\<close>

definition toggleService :: "string \<Rightarrow> string list \<Rightarrow> string list" where
  "toggleService serviceId prev =
    (if serviceId \<in> set prev then filter (\<lambda>i. i \<noteq> serviceId) prev
     else prev @ [serviceId])"

text \<open>
  \<open>selectedRepairDoc?.repairOptions.find(s => s._id === serviceId)\<close>: the first
  service whose identifier is present and equal; nothing when no document is selected.
\<close>

definition findService :: "'n RepairDocument option \<Rightarrow> string \<Rightarrow> 'n RepairService option" where
  "findService doc serviceId =
    (case doc of
       None \<Rightarrow> None
     | Some d \<Rightarrow> find (\<lambda>s. service_oid s = Some serviceId) (repairOptions d))"

text \<open>
  \<open>totalPrice\<close> is a left-to-right \<open>reduce\<close> from 0 over the selected identifiers, with
  the addition of the source's numbers.
\<close>

definition totalPrice :: "string list \<Rightarrow> ('n::{plus,zero}) RepairDocument option \<Rightarrow> 'n" where
  "totalPrice services doc =
    foldl (\<lambda>total serviceId.
             total + (case findService doc serviceId of
                        Some service \<Rightarrow> estimatedCost service
                      | None \<Rightarrow> 0))
          0 services"

text \<open>
  The specification's wording of the total, written without the lookup of the code.
  What an identifier contributes: going through the services of the document, the cost
  of the one carrying that identifier, and zero when none does. The total adds the
  contributions of the selected identifiers in the order of the selection, starting
  from zero.
\<close>

fun spec_contribution :: "('n::zero) RepairService list \<Rightarrow> string \<Rightarrow> 'n" where
  "spec_contribution [] i = 0"
| "spec_contribution (s # ss) i =
     (if service_oid s = Some i then estimatedCost s else spec_contribution ss i)"

fun spec_add_up :: "('n::plus) \<Rightarrow> 'n list \<Rightarrow> 'n" where
  "spec_add_up acc [] = acc"
| "spec_add_up acc (c # cs) = spec_add_up (acc + c) cs"

definition spec_totalPrice :: "string list \<Rightarrow> ('n::{plus,zero}) RepairDocument option \<Rightarrow> 'n" where
  "spec_totalPrice services doc =
    spec_add_up 0
      (map (\<lambda>i. case doc of None \<Rightarrow> 0 | Some d \<Rightarrow> spec_contribution (repairOptions d) i)
           services)"

definition mkService :: "string \<Rightarrow> 'n \<Rightarrow> 'n RepairService" where
  "mkService i c =
    \<lparr>service_name = i, estimatedCost = c, description = [], screenType = None,
     includesKeyboard = None, includesStylus = None, includesControllers = None,
     service_oid = Some i\<rparr>"

text \<open>A repair document with a service a of cost \<open>ca\<close> and a service b of cost \<open>cb\<close>.\<close>

definition doc_ab :: "'n \<Rightarrow> 'n \<Rightarrow> 'n RepairDocument" where
  "doc_ab ca cb =
    \<lparr>doc_oid = ''d1'', doc_brand = ''Acme'', doc_model = ''One'',
     repairOptions = [mkService ''a'' ca, mkService ''b'' cb],
     doc_createdAt = None, doc_updatedAt = None\<rparr>"

section \<open>Carousel paging\<close>

text \<open>
  The remainder operator of the source language truncates towards zero, so the result
  has the sign of the dividend; with a zero divisor it yields no number at all.
\<close>

definition js_rem :: "int \<Rightarrow> int \<Rightarrow> int option" where
  "js_rem a b = (if b = 0 then None else Some (sgn a * (\<bar>a\<bar> mod \<bar>b\<bar>)))"

definition itemsToShow :: int where
  "itemsToShow = 4"

record carousel =
  currentIndex :: "int option"  \<comment> \<open>\<open>None\<close> is the not-a-number value\<close>
  isTransitioning :: bool

text \<open>
  The updaters that \<open>nextSlide\<close> and \<open>prevSlide\<close> hand to \<open>setCurrentIndex\<close>, for a
  product list of length \<open>n\<close>.
\<close>

definition nextIndex :: "nat \<Rightarrow> int \<Rightarrow> int option" where
  "nextIndex n prev = js_rem (prev + itemsToShow) (int n)"

definition prevIndex :: "nat \<Rightarrow> int \<Rightarrow> int option" where
  "prevIndex n prev = js_rem (prev - itemsToShow + int n) (int n)"

text \<open>
  A click is ignored during a transition; otherwise it raises the transition flag and
  leaves the index update to a timer. When the timer fires, the index is updated from
  its value at that moment and the flag is lowered.
\<close>

datatype slide = Next | Prev

definition slide_click :: "carousel \<Rightarrow> carousel \<times> bool" where
  "slide_click c =
    (if isTransitioning c then (c, False) else (c\<lparr>isTransitioning := True\<rparr>, True))"

definition slide_timeout :: "slide \<Rightarrow> nat \<Rightarrow> carousel \<Rightarrow> carousel" where
  "slide_timeout d n c =
    c\<lparr>currentIndex :=
         (case currentIndex c of
            None \<Rightarrow> None
          | Some i \<Rightarrow> (case d of Next \<Rightarrow> nextIndex n i | Prev \<Rightarrow> prevIndex n i)),
      isTransitioning := False\<rparr>"

definition nextSlide :: "nat \<Rightarrow> carousel \<Rightarrow> carousel" where
  "nextSlide n c =
    (case slide_click c of
       (c', True) \<Rightarrow> slide_timeout Next n c'
     | (c', False) \<Rightarrow> c')"

definition prevSlide :: "nat \<Rightarrow> carousel \<Rightarrow> carousel" where
  "prevSlide n c =
    (case slide_click c of
       (c', True) \<Rightarrow> slide_timeout Prev n c'
     | (c', False) \<Rightarrow> c')"

text \<open>A carousel at rest on index \<open>i\<close>.\<close>

definition idle :: "int \<Rightarrow> carousel" where
  "idle i = \<lparr>currentIndex = Some i, isTransitioning = False\<rparr>"

section \<open>Effects and replies\<close>

text \<open>
  What a handler does besides writing state is returned as a list of effects, in the
  order the handler performs them. A request is an effect; its reply comes back later
  as a separate input.
\<close>

record 'n ServiceLine =
  line_id :: string
  line_name :: "string option"
  line_price :: "'n option"
  line_description :: "string option"

record Customer =
  customer_name :: string
  customer_firstName :: string
  customer_email :: string
  customer_phone :: string

record Slot =
  slot_date :: string
  slot_time :: string

record 'n AppointmentPayload =
  payload_deviceType :: "device_type option"
  payload_deviceName :: "string option"
  payload_subtype :: "string option"
  payload_subtypeName :: "string option"
  payload_brand :: "string option"
  payload_model :: string
  payload_services :: "'n ServiceLine list"
  payload_totalPrice :: 'n
  payload_customer :: Customer
  payload_appointment :: Slot
  payload_createdAt :: string

datatype 'n effect =
    PreventDefault
  | FetchGet string
  | FetchPost string "'n AppointmentPayload"
  | ConsoleError string
  | ConsoleLog
  | HistoryPushState int
  | HistoryReplaceState int
  | CallOnBackToHome
  | SetTimeout nat

fun network :: "'n effect \<Rightarrow> bool" where
  "network (FetchGet u) = True"
| "network (FetchPost u b) = True"
| "network e = False"

text \<open>
  A reply to \<open>fetch\<close>: the promise is rejected with an error message, or it resolves
  to a response with its \<open>ok\<close> flag and a body that either fails to parse (with the
  parser's message) or parses to a value. The handlers write nothing between awaiting
  the response and awaiting its body, so both are resumed in one step.
\<close>

datatype 'a response = Rejected string | Resolved bool "string + 'a"

section \<open>Step navigation\<close>

definition initial :: "RepairBookingProps \<Rightarrow> 'n booking" where
  "initial p =
    \<lparr>currentStep = (if deviceType p \<noteq> None then 2 else 1),
     selectedDevice =
       (case deviceType p of
          None \<Rightarrow> None
        | Some t \<Rightarrow> find (\<lambda>d. device_kind d = t) devices),
     selectedSubtype = None,
     selectedBrand = None,
     selectedRepairDoc = None,
     selectedServices = [],
     searchTerm = [],
     appointmentData = emptyAppointment,
     isMobile = False,
     brands = [],
     repairDocs = [],
     isLoading = \<lparr>loading_brands = False, loading_models = False, submitting = False\<rparr>,
     error = None,
     showSuccessPopup = False\<rparr>"

definition resetForm :: "RepairBookingProps \<Rightarrow> 'n booking \<Rightarrow> 'n booking" where
  "resetForm p s =
    s\<lparr>currentStep := (if deviceType p \<noteq> None then 2 else 1),
      selectedDevice := (if deviceType p = None then None else selectedDevice s),
      selectedSubtype := None,
      selectedBrand := None,
      selectedRepairDoc := None,
      selectedServices := [],
      appointmentData := emptyAppointment,
      searchTerm := []\<rparr>"

definition nextStep :: "'n booking \<Rightarrow> 'n booking \<times> 'n effect list" where
  "nextStep s =
    (if currentStep s < 6 then
       (let newStep = currentStep s + 1
        in (s\<lparr>currentStep := newStep, searchTerm := []\<rparr>, [HistoryPushState newStep]))
     else (s, []))"

definition clearFor :: "int \<Rightarrow> 'n booking \<Rightarrow> 'n booking" where
  "clearFor newStep s =
    (if newStep = 1 then
       s\<lparr>selectedDevice := None, selectedSubtype := None, selectedBrand := None,
         selectedRepairDoc := None, selectedServices := []\<rparr>
     else if newStep = 2 then
       s\<lparr>selectedSubtype := None, selectedBrand := None,
         selectedRepairDoc := None, selectedServices := []\<rparr>
     else if newStep = 3 then
       s\<lparr>selectedBrand := None, selectedRepairDoc := None, selectedServices := []\<rparr>
     else if newStep = 4 then
       s\<lparr>selectedRepairDoc := None, selectedServices := []\<rparr>
     else if newStep = 5 then
       s\<lparr>selectedServices := []\<rparr>
     else s)"

definition prevStep ::
  "RepairBookingProps \<Rightarrow> 'n booking \<Rightarrow> 'n booking \<times> 'n effect list" where
  "prevStep p s =
    (if currentStep s > 1 then
       (let newStep = currentStep s - 1
        in if newStep = 1 \<and> deviceType p \<noteq> None \<and> onBackToHome p then
             (s, [CallOnBackToHome])
           else
             ((clearFor newStep s)\<lparr>currentStep := newStep, searchTerm := []\<rparr>,
              [HistoryReplaceState newStep]))
     else (s, []))"

section \<open>Loading brands\<close>

definition msg_invalid_subtype :: string where
  "msg_invalid_subtype = ''Invalid subtype''"

definition msg_fetch_brands :: string where
  "msg_fetch_brands = ''Failed to fetch brands''"

definition msg_load_brands :: string where
  "msg_load_brands = ''Failed to load brands''"

text \<open>The \<open>switch\<close> over the subtype identifier; its \<open>default\<close> branch throws.\<close>

definition brandCategory :: "string \<Rightarrow> string + string" where
  "brandCategory sid =
    (if sid = ''mobile'' then Inr ''mobile''
     else if sid = ''tablet'' then Inr ''tablet''
     else if sid = ''laptop'' then Inr ''laptop''
     else if sid = ''console'' then Inr ''console''
     else Inl msg_invalid_subtype)"

text \<open>The \<open>catch\<close> and \<open>finally\<close> blocks of the brand loader, for a caught error.\<close>

definition brandsFailed :: "string \<Rightarrow> 'n booking \<Rightarrow> 'n booking \<times> 'n effect list" where
  "brandsFailed err s =
    (s\<lparr>error := Some msg_load_brands,
       isLoading := (isLoading s)\<lparr>loading_brands := False\<rparr>\<rparr>,
     [ConsoleError err])"

text \<open>\<open>fetchBrands\<close> up to its first \<open>await\<close>.\<close>

definition fetchBrands ::
  "DeviceSubtype \<Rightarrow> 'n booking \<Rightarrow> 'n booking \<times> 'n effect list" where
  "fetchBrands st s =
    (let s1 = s\<lparr>isLoading := (isLoading s)\<lparr>loading_brands := True\<rparr>, error := None\<rparr>
     in case brandCategory (subtype_id st) of
          Inl err \<Rightarrow> brandsFailed err s1
        | Inr category \<Rightarrow> (s1, [FetchGet (API_BASE_URL @ ''/brands/'' @ category)]))"

text \<open>\<open>fetchBrands\<close> from the reply on.\<close>

definition fetchBrands_settled ::
  "Brand list response \<Rightarrow> 'n booking \<Rightarrow> 'n booking \<times> 'n effect list" where
  "fetchBrands_settled r s =
    (case r of
       Rejected err \<Rightarrow> brandsFailed err s
     | Resolved ok body \<Rightarrow>
         if \<not> ok then brandsFailed msg_fetch_brands s
         else (case body of
                 Inl err \<Rightarrow> brandsFailed err s
               | Inr data \<Rightarrow>
                   (s\<lparr>brands := data,
                      isLoading := (isLoading s)\<lparr>loading_brands := False\<rparr>\<rparr>, [])))"

text \<open>The effect that runs when \<open>selectedSubtype\<close> has changed.\<close>

definition subtypeEffect :: "'n booking \<Rightarrow> 'n booking \<times> 'n effect list" where
  "subtypeEffect s =
    (case selectedSubtype s of None \<Rightarrow> (s, []) | Some st \<Rightarrow> fetchBrands st s)"

text \<open>A reply counts as a failed load when the loader reaches its \<open>catch\<close> block.\<close>

fun loadFails :: "'a response \<Rightarrow> bool" where
  "loadFails (Rejected err) = True"
| "loadFails (Resolved ok (Inl err)) = True"
| "loadFails (Resolved ok (Inr data)) = (\<not> ok)"

subsection \<open>Runs of the wizard\<close>

text \<open>
  The inputs that matter for the brand list: choosing a subtype on step 2 (the click
  handler sets the subtype and advances, then the effect starts the load), going back,
  and a reply to a brand request. Replies carry no mark of the request they answer,
  and the loader keeps none. The loader of repair documents starts only once a brand is
  selected, which is not the case on the subtype step; it is left out.
\<close>

datatype event =
    ChooseSubtype DeviceSubtype
  | Back
  | BrandsSettled "Brand list response"

definition andThen ::
  "'n booking \<times> 'n effect list \<Rightarrow> ('n booking \<Rightarrow> 'n booking \<times> 'n effect list)
     \<Rightarrow> 'n booking \<times> 'n effect list" where
  "andThen r f = (case r of (s, es) \<Rightarrow> (case f s of (s', es') \<Rightarrow> (s', es @ es')))"

text \<open>
  The effect on the step number: after every change of the step it pushes a history
  entry for the new step (and renews the listener for history navigation, which writes
  nothing). It is declared after the loaders, so it runs after them.
\<close>

definition stepEffect :: "'n booking \<Rightarrow> 'n booking \<times> 'n effect list" where
  "stepEffect s = (s, [HistoryPushState (currentStep s)])"

fun step ::
  "RepairBookingProps \<Rightarrow> event \<Rightarrow> 'n booking \<Rightarrow> 'n booking \<times> 'n effect list" where
  "step p (ChooseSubtype st) s =
     andThen (andThen (nextStep (s\<lparr>selectedSubtype := Some st\<rparr>)) subtypeEffect)
       (\<lambda>s'. if currentStep s' \<noteq> currentStep s then stepEffect s' else (s', []))"
| "step p Back s =
     andThen
       (andThen (prevStep p s)
          (\<lambda>s'. if selectedSubtype s' \<noteq> selectedSubtype s then subtypeEffect s' else (s', [])))
       (\<lambda>s'. if currentStep s' \<noteq> currentStep s then stepEffect s' else (s', []))"
| "step p (BrandsSettled r) s = fetchBrands_settled r s"

text \<open>A run handles the inputs in order and keeps the effects of all of them.\<close>

fun run ::
  "RepairBookingProps \<Rightarrow> event list \<Rightarrow> 'n booking \<times> 'n effect list
     \<Rightarrow> 'n booking \<times> 'n effect list" where
  "run p [] r = r"
| "run p (ev # evs) r = run p evs (andThen r (step p ev))"

section \<open>Submitting the appointment\<close>

definition msg_required :: string where
  "msg_required = ''Veuillez remplir tous les champs obligatoires''"

definition msg_no_document :: string where
  "msg_no_document =
    ''Aucun document de r'' @ [e_acute] @ ''paration s'' @ [e_acute] @ ''lectionn'' @ [e_acute]"

definition msg_appointment_failed :: string where
  "msg_appointment_failed =
    [E_acute] @ ''chec de la cr'' @ [e_acute] @ ''ation du rendez-vous''"

definition appointmentPayload ::
  "string \<Rightarrow> ('n::{plus,zero}) RepairDocument \<Rightarrow> 'n booking \<Rightarrow> 'n AppointmentPayload" where
  "appointmentPayload now doc s =
    \<lparr>payload_deviceType = map_option device_kind (selectedDevice s),
     payload_deviceName = map_option device_name (selectedDevice s),
     payload_subtype = map_option subtype_id (selectedSubtype s),
     payload_subtypeName = map_option subtype_name (selectedSubtype s),
     payload_brand = map_option brand_name (selectedBrand s),
     payload_model = doc_model doc,
     payload_services =
       map (\<lambda>i. let service = find (\<lambda>x. service_oid x = Some i) (repairOptions doc)
                in \<lparr>line_id = i,
                    line_name = map_option service_name service,
                    line_price = map_option estimatedCost service,
                    line_description = map_option description service\<rparr>)
           (selectedServices s),
     payload_totalPrice = totalPrice (selectedServices s) (selectedRepairDoc s),
     payload_customer =
       \<lparr>customer_name = name (appointmentData s),
        customer_firstName = firstName (appointmentData s),
        customer_email = email (appointmentData s),
        customer_phone = phone (appointmentData s)\<rparr>,
     payload_appointment =
       \<lparr>slot_date = date (appointmentData s), slot_time = time (appointmentData s)\<rparr>,
     payload_createdAt = now\<rparr>"

text \<open>
  \<open>handleSubmit\<close> up to its first \<open>await\<close>; \<open>now\<close> is the timestamp the clock gives.
  An empty string is the only string that fails a truth test.
\<close>

definition handleSubmit ::
  "string \<Rightarrow> ('n::{plus,zero}) booking \<Rightarrow> 'n booking \<times> 'n effect list" where
  "handleSubmit now s =
    (if date (appointmentData s) = [] \<or> time (appointmentData s) = [] \<or>
        name (appointmentData s) = [] \<or> email (appointmentData s) = [] then
       (s\<lparr>error := Some msg_required\<rparr>, [PreventDefault])
     else
       (case selectedRepairDoc s of
          None \<Rightarrow> (s\<lparr>error := Some msg_no_document\<rparr>, [PreventDefault])
        | Some doc \<Rightarrow>
            (s\<lparr>isLoading := (isLoading s)\<lparr>submitting := True\<rparr>, error := None\<rparr>,
             [PreventDefault,
              FetchPost (API_BASE_URL @ ''/appointments'') (appointmentPayload now doc s)])))"

text \<open>\<open>err.message || fallback\<close>, written to the error slot by the \<open>catch\<close> block.\<close>

definition submitFailed :: "string \<Rightarrow> 'n booking \<Rightarrow> 'n booking \<times> 'n effect list" where
  "submitFailed err s =
    (s\<lparr>error := Some (if err = [] then msg_appointment_failed else err),
       isLoading := (isLoading s)\<lparr>submitting := False\<rparr>\<rparr>,
     [ConsoleError err])"

text \<open>
  \<open>handleSubmit\<close> from the reply on. The parsed body is reduced to its \<open>message\<close>
  field, which is all the handler reads of it.
\<close>

definition handleSubmit_settled ::
  "string option response \<Rightarrow> 'n booking \<Rightarrow> 'n booking \<times> 'n effect list" where
  "handleSubmit_settled r s =
    (case r of
       Rejected err \<Rightarrow> submitFailed err s
     | Resolved ok body \<Rightarrow>
         (case body of
            Inl err \<Rightarrow> submitFailed err s
          | Inr message \<Rightarrow>
              if \<not> ok then
                submitFailed
                  (case message of
                     None \<Rightarrow> msg_appointment_failed
                   | Some m \<Rightarrow> if m = [] then msg_appointment_failed else m) s
              else
                (s\<lparr>showSuccessPopup := True,
                   isLoading := (isLoading s)\<lparr>submitting := False\<rparr>\<rparr>,
                 [ConsoleLog, SetTimeout 3000])))"

text \<open>The callback scheduled after a success, run when its timer fires.\<close>

definition successTimeout :: "RepairBookingProps \<Rightarrow> 'n booking \<Rightarrow> 'n booking" where
  "successTimeout p s = resetForm p (s\<lparr>showSuccessPopup := False\<rparr>)"

section \<open>The retreat table of the specification\<close>

text \<open>
  The selections that the specification's table lists as cleared when retreating from
  state \<open>n\<close>, and nothing else.
\<close>

definition spec_cleared_on_retreat :: "int \<Rightarrow> 'n booking \<Rightarrow> 'n booking" where
  "spec_cleared_on_retreat n s =
    (if n = 2 then
       s\<lparr>selectedDevice := None, selectedSubtype := None, selectedBrand := None,
         selectedRepairDoc := None, selectedServices := []\<rparr>
     else if n = 3 then
       s\<lparr>selectedSubtype := None, selectedBrand := None,
         selectedRepairDoc := None, selectedServices := []\<rparr>
     else if n = 4 then
       s\<lparr>selectedBrand := None, selectedRepairDoc := None, selectedServices := []\<rparr>
     else if n = 5 then
       s\<lparr>selectedRepairDoc := None, selectedServices := []\<rparr>
     else if n = 6 then
       s\<lparr>selectedServices := []\<rparr>
     else s)"

section \<open>Concrete inputs\<close>

definition props_open :: RepairBookingProps where
  "props_open = \<lparr>deviceType = None, onBackToHome = False\<rparr>"

definition props_fixed :: RepairBookingProps where
  "props_fixed = \<lparr>deviceType = Some Mobile, onBackToHome = False\<rparr>"

definition props_fixed_cb :: RepairBookingProps where
  "props_fixed_cb = \<lparr>deviceType = Some Mobile, onBackToHome = True\<rparr>"

definition sub_mobile :: DeviceSubtype where
  "sub_mobile =
    \<lparr>subtype_id = ''mobile'',
     subtype_name = ''T'' @ [e_acute] @ ''l'' @ [e_acute] @ ''phone Mobile'',
     parentType = Mobile\<rparr>"

definition sub_laptop :: DeviceSubtype where
  "sub_laptop =
    \<lparr>subtype_id = ''laptop'', subtype_name = ''Ordinateur Portable'', parentType = Laptop\<rparr>"

definition sub_watch :: DeviceSubtype where
  "sub_watch = \<lparr>subtype_id = ''watch'', subtype_name = ''Montre'', parentType = Mobile\<rparr>"

definition mkBrand :: "string \<Rightarrow> Brand" where
  "mkBrand n =
    \<lparr>brand_oid = None, brand_name = n, models = None, repairCount = None,
     brand_createdAt = None, brand_updatedAt = None\<rparr>"

text \<open>A session on the brand step, with a brand list loaded and a search typed in.\<close>

definition on_brand_step :: "int booking" where
  "on_brand_step =
    (initial props_open)
      \<lparr>currentStep := 3,
       selectedDevice := Some \<lparr>device_id = ''laptop'', device_name = ''Ordinateur Portable'',
                               device_kind = Laptop\<rparr>,
       selectedSubtype := Some sub_laptop,
       searchTerm := ''de'',
       brands := [mkBrand ''Dell'']\<rparr>"

text \<open>A session on the subtype step of an open wizard, the mobile device chosen.\<close>

definition on_subtype_step :: "int booking" where
  "on_subtype_step =
    (initial props_open)
      \<lparr>currentStep := 2,
       selectedDevice := Some \<lparr>device_id = ''mobile'',
                               device_name = ''T'' @ [e_acute] @ ''l'' @ [e_acute] @ ''phone Mobile'',
                               device_kind = Mobile\<rparr>\<rparr>"

text \<open>A session on the appointment step, every choice made and the form filled in.\<close>

definition filled_form :: AppointmentData where
  "filled_form =
    \<lparr>date = ''2025-07-01'', time = ''09:30'', name = ''Martin'', firstName = ''Lea'',
     email = ''lea@example.org'', phone = ''0600000000''\<rparr>"

definition ready_to_submit :: "int booking" where
  "ready_to_submit =
    on_brand_step
      \<lparr>currentStep := 6,
       selectedBrand := Some (mkBrand ''Dell''),
       selectedRepairDoc := Some (doc_ab 50 30),
       selectedServices := [''a''],
       searchTerm := [],
       appointmentData := filled_form\<rparr>"

text \<open>The same session with the date left empty.\<close>

definition missing_date :: "int booking" where
  "missing_date = ready_to_submit\<lparr>appointmentData := filled_form\<lparr>date := []\<rparr>\<rparr>"

text \<open>
  Choosing the mobile subtype, going back and choosing the laptop subtype; and a
  successful reply to a brand request, carrying the brand list of its body.
\<close>

definition selecting :: "event list" where
  "selecting = [ChooseSubtype sub_mobile, Back, ChooseSubtype sub_laptop]"

definition replied :: "Brand list \<Rightarrow> event" where
  "replied data = BrandsSettled (Resolved True (Inr data))"

section \<open>Properties of selection and pricing\<close>

lemma spec_add_up_foldl:
  "spec_add_up acc (map f xs) = foldl (\<lambda>t x. t + f x) acc xs"
  by (induction xs arbitrary: acc) simp_all

lemma spec_contribution_find:
  "spec_contribution ss i =
     (case find (\<lambda>s. service_oid s = Some i) ss of
        Some s \<Rightarrow> estimatedCost s
      | None \<Rightarrow> 0)"
  by (induction ss) simp_all

lemma spec_contribution_findService:
  "(case doc of None \<Rightarrow> 0 | Some d \<Rightarrow> spec_contribution (repairOptions d) i) =
     (case findService doc i of Some s \<Rightarrow> estimatedCost s | None \<Rightarrow> 0)"
  by (cases doc) (simp_all add: findService_def spec_contribution_find)

lemma filter_neq_absent: "s \<notin> set xs \<Longrightarrow> filter (\<lambda>i. i \<noteq> s) xs = xs"
  by (induction xs) auto

text \<open>
  Claim C2. For every list of selected identifiers and every selected repair document
  (or none), the total price is the sum, taken in the order of the selection with the
  addition of the source's numbers, of what each identifier contributes: the cost of
  the service of the document that carries the identifier, and zero when no service
  does. For a document with services a (cost \<open>ca\<close>) and b (cost \<open>cb\<close>): selecting a gives
  \<open>0 + ca\<close>, selecting a and the absent c gives \<open>0 + ca + 0\<close>, selecting b gives \<open>0 + cb\<close>,
  selecting both gives \<open>0 + ca + cb\<close>, and the empty selection gives 0; without a
  document every identifier contributes zero. At the integral costs 50 and 30, where
  the addition is exact, these are 50, 50, 30, 80 and 0.
\<close>

theorem totalPrice_is_sum_of_resolved:
  "totalPrice services (doc :: ('n :: {plus,zero}) RepairDocument option)
     = spec_totalPrice services doc
   \<and> totalPrice [''a''] (Some (doc_ab ca cb)) = 0 + (ca :: 'n)
   \<and> totalPrice [''a'', ''c''] (Some (doc_ab ca cb)) = 0 + ca + 0
   \<and> totalPrice [] (Some (doc_ab ca cb)) = 0
   \<and> totalPrice [''b''] (Some (doc_ab ca cb)) = 0 + cb
   \<and> totalPrice [''a'', ''b''] (Some (doc_ab ca cb)) = 0 + ca + cb
   \<and> totalPrice [''b'', ''a''] (Some (doc_ab ca cb)) = 0 + cb + ca
   \<and> totalPrice [''a'', ''b''] None = 0 + 0 + (0 :: 'n)
   \<and> totalPrice [''a''] (Some (doc_ab 50 30)) = (50 :: int)
   \<and> totalPrice [''a'', ''c''] (Some (doc_ab 50 30)) = (50 :: int)
   \<and> totalPrice [] (Some (doc_ab 50 30)) = (0 :: int)
   \<and> totalPrice [''b''] (Some (doc_ab 50 30)) = (30 :: int)
   \<and> totalPrice [''a'', ''b''] (Some (doc_ab 50 30)) = (80 :: int)"
proof -
  have spec: "totalPrice services doc = spec_totalPrice services doc"
    unfolding totalPrice_def spec_totalPrice_def spec_add_up_foldl
    by (simp only: spec_contribution_findService)
  have a: "totalPrice [''a''] (Some (doc_ab ca cb)) = 0 + ca"
    by (simp add: totalPrice_def findService_def doc_ab_def mkService_def)
  have ac: "totalPrice [''a'', ''c''] (Some (doc_ab ca cb)) = 0 + ca + 0"
    by (simp add: totalPrice_def findService_def doc_ab_def mkService_def)
  have e: "totalPrice [] (Some (doc_ab ca cb)) = 0"
    by (simp add: totalPrice_def)
  have b: "totalPrice [''b''] (Some (doc_ab ca cb)) = 0 + cb"
    by (simp add: totalPrice_def findService_def doc_ab_def mkService_def)
  have ab: "totalPrice [''a'', ''b''] (Some (doc_ab ca cb)) = 0 + ca + cb"
    by (simp add: totalPrice_def findService_def doc_ab_def mkService_def)
  have ba: "totalPrice [''b'', ''a''] (Some (doc_ab ca cb)) = 0 + cb + ca"
    by (simp add: totalPrice_def findService_def doc_ab_def mkService_def)
  have n: "totalPrice [''a'', ''b''] None = 0 + 0 + (0 :: 'n)"
    by (simp add: totalPrice_def findService_def)
  have ia: "totalPrice [''a''] (Some (doc_ab 50 30)) = (50 :: int)"
    by (simp add: totalPrice_def findService_def doc_ab_def mkService_def)
  have iac: "totalPrice [''a'', ''c''] (Some (doc_ab 50 30)) = (50 :: int)"
    by (simp add: totalPrice_def findService_def doc_ab_def mkService_def)
  have ie: "totalPrice [] (Some (doc_ab 50 30)) = (0 :: int)"
    by (simp add: totalPrice_def)
  have ib: "totalPrice [''b''] (Some (doc_ab 50 30)) = (30 :: int)"
    by (simp add: totalPrice_def findService_def doc_ab_def mkService_def)
  have iab: "totalPrice [''a'', ''b''] (Some (doc_ab 50 30)) = (80 :: int)"
    by (simp add: totalPrice_def findService_def doc_ab_def mkService_def)
  show ?thesis by (intro conjI spec a ac e b ab ba n ia iac ie ib iab)
qed

text \<open>
  Claim C9, as stated, at a concrete input: the selection a, b has no duplicates, yet
  toggling a twice yields b, a, which is not the list it started from.
\<close>

theorem toggleService_twice_reorders:
  "distinct [''a'', ''b'']
   \<and> toggleService ''a'' (toggleService ''a'' [''a'', ''b'']) = [''b'', ''a'']
   \<and> toggleService ''a'' (toggleService ''a'' [''a'', ''b'']) \<noteq> [''a'', ''b'']"
  by (simp add: toggleService_def)

text \<open>
  Claim C9, amended. On a duplicate-free selection, toggling an identifier removes it
  when it is present and appends it when it is absent; the result is duplicate-free;
  toggling twice gives back the same identifiers (as a multiset), in the original
  order when the identifier was absent, and with the identifier moved to the end when
  it was present.
\<close>

theorem toggleService_distinct_same_members:
  assumes "distinct prev"
  shows "(s \<in> set prev \<longrightarrow>
            toggleService s prev = filter (\<lambda>i. i \<noteq> s) prev
            \<and> set (toggleService s prev) = set prev - {s}
            \<and> toggleService s (toggleService s prev) = filter (\<lambda>i. i \<noteq> s) prev @ [s])
       \<and> (s \<notin> set prev \<longrightarrow>
            toggleService s prev = prev @ [s]
            \<and> toggleService s (toggleService s prev) = prev)
       \<and> distinct (toggleService s prev)
       \<and> mset (toggleService s (toggleService s prev)) = mset prev"
proof (cases "s \<in> set prev")
  case True
  have t1: "toggleService s prev = filter (\<lambda>i. i \<noteq> s) prev"
    using True by (simp add: toggleService_def)
  have t2: "toggleService s (toggleService s prev) = filter (\<lambda>i. i \<noteq> s) prev @ [s]"
    unfolding t1 by (simp add: toggleService_def)
  have m: "mset (filter (\<lambda>i. i \<noteq> s) prev @ [s]) = mset prev"
    using True assms
  proof (induction prev)
    case Nil
    then show ?case by simp
  next
    case (Cons x xs)
    show ?case
    proof (cases "x = s")
      case True
      with Cons.prems have "s \<notin> set xs" by simp
      then have "filter (\<lambda>i. i \<noteq> s) xs = xs" by (rule filter_neq_absent)
      with True show ?thesis by simp
    next
      case False
      with Cons.prems have "s \<in> set xs" "distinct xs" by simp_all
      then have "mset (filter (\<lambda>i. i \<noteq> s) xs @ [s]) = mset xs" by (rule Cons.IH)
      with False show ?thesis by simp
    qed
  qed
  have st: "set (filter (\<lambda>i. i \<noteq> s) prev) = set prev - {s}" by auto
  show ?thesis using True assms t1 t2 m st by simp
next
  case False
  have t1: "toggleService s prev = prev @ [s]"
    using False by (simp add: toggleService_def)
  have t2: "toggleService s (toggleService s prev) = prev"
    unfolding t1 using False by (simp add: toggleService_def filter_neq_absent)
  show ?thesis using False assms t1 t2 by simp
qed

theorem toggleService_distinct_same_members_witness:
  "distinct [''a'', ''b'']
   \<and> toggleService ''a'' [''a'', ''b''] = [''b'']
   \<and> toggleService ''c'' [''a'', ''b''] = [''a'', ''b'', ''c'']
   \<and> toggleService ''c'' (toggleService ''c'' [''a'', ''b'']) = [''a'', ''b'']
   \<and> mset (toggleService ''a'' (toggleService ''a'' [''a'', ''b''])) = mset [''a'', ''b'']"
proof -
  have d: "distinct [''a'', ''b'']" by simp
  show ?thesis
    using d toggleService_distinct_same_members [OF d, of "''a''"]
      toggleService_distinct_same_members [OF d, of "''c''"]
    by (simp add: toggleService_def)
qed

section \<open>Properties of carousel paging\<close>

text \<open>
  Claim C10, at product lists shorter than a page. With three products, retreating from
  index 0 gives index -1, and advancing from index 2 then retreating gives -1 rather
  than 2; with two products, retreating from index 1 gives -1.
\<close>

theorem prevSlide_short_list_leaves_range:
  "prevSlide 3 (idle 0) = idle (- 1)
   \<and> prevSlide 3 (nextSlide 3 (idle 2)) = idle (- 1)
   \<and> prevSlide 2 (idle 1) = idle (- 1)"
  by (simp add: prevSlide_def nextSlide_def slide_click_def slide_timeout_def idle_def
      nextIndex_def prevIndex_def js_rem_def itemsToShow_def)

text \<open>
  From four products on, the two moves are inverse to each other and stay in range.
\<close>

lemma js_rem_nonneg: "0 \<le> a \<Longrightarrow> 0 < b \<Longrightarrow> js_rem a b = Some (a mod b)"
  by (cases "a = 0") (simp_all add: js_rem_def)

lemma slides_inverse_from_four:
  assumes "4 \<le> n" "0 \<le> i" "i < int n"
  shows "prevSlide n (nextSlide n (idle i)) = idle i"
    and "nextSlide n (prevSlide n (idle i)) = idle i"
    and "\<exists>j. nextSlide n (idle i) = idle j \<and> 0 \<le> j \<and> j < int n"
    and "\<exists>k. prevSlide n (idle i) = idle k \<and> 0 \<le> k \<and> k < int n"
proof -
  let ?m = "int n"
  have n: "nextSlide n (idle i) = idle ((i + 4) mod ?m)"
    using assms by (simp add: nextSlide_def slide_click_def slide_timeout_def idle_def
      nextIndex_def itemsToShow_def js_rem_nonneg)
  have p: "prevSlide n (idle i) = idle ((i - 4 + ?m) mod ?m)"
    using assms by (simp add: prevSlide_def slide_click_def slide_timeout_def idle_def
      prevIndex_def itemsToShow_def js_rem_nonneg)
  have "0 \<le> (i + 4) mod ?m" using assms by simp
  then have pos: "0 \<le> (i + 4) mod ?m - 4 + ?m" using assms by linarith
  have pn: "prevSlide n (idle ((i + 4) mod ?m)) = idle (((i + 4) mod ?m - 4 + ?m) mod ?m)"
    using assms pos by (simp add: prevSlide_def slide_click_def slide_timeout_def idle_def
      prevIndex_def itemsToShow_def js_rem_nonneg)
  have "0 \<le> (i - 4 + ?m) mod ?m" using assms by simp
  then have pos': "0 \<le> (i - 4 + ?m) mod ?m + 4" by linarith
  have np: "nextSlide n (idle ((i - 4 + ?m) mod ?m)) = idle (((i - 4 + ?m) mod ?m + 4) mod ?m)"
    using assms pos' by (simp add: nextSlide_def slide_click_def slide_timeout_def idle_def
      nextIndex_def itemsToShow_def js_rem_nonneg)
  have r1: "((i + 4) mod ?m - 4 + ?m) mod ?m = i"
  proof -
    have "((i + 4) mod ?m - 4 + ?m) mod ?m = ((i + 4) mod ?m - 4) mod ?m" by simp
    also have "\<dots> = (i + 4 - 4) mod ?m" by (rule mod_diff_left_eq)
    also have "\<dots> = i" using assms by simp
    finally show ?thesis .
  qed
  have r2: "((i - 4 + ?m) mod ?m + 4) mod ?m = i"
  proof -
    have "((i - 4 + ?m) mod ?m + 4) mod ?m = ((i - 4) mod ?m + 4) mod ?m" by simp
    also have "\<dots> = (i - 4 + 4) mod ?m" by (rule mod_add_left_eq)
    also have "\<dots> = i" using assms by simp
    finally show ?thesis .
  qed
  show "prevSlide n (nextSlide n (idle i)) = idle i"
    unfolding n pn r1 ..
  show "nextSlide n (prevSlide n (idle i)) = idle i"
    unfolding p np r2 ..
  have "0 \<le> (i + 4) mod ?m \<and> (i + 4) mod ?m < ?m" using assms by simp
  with n show "\<exists>j. nextSlide n (idle i) = idle j \<and> 0 \<le> j \<and> j < int n" by blast
  have "0 \<le> (i - 4 + ?m) mod ?m \<and> (i - 4 + ?m) mod ?m < ?m" using assms by simp
  with p show "\<exists>k. prevSlide n (idle i) = idle k \<and> 0 \<le> k \<and> k < int n" by blast
qed

section \<open>Properties of step navigation\<close>

text \<open>
  Claim C1, as stated, at a concrete input: an open wizard on state 3 with the search
  text "de". Retreating empties the search text, which the table does not list, so the
  new state is not the old one with only the listed selections cleared and the state
  number lowered.
\<close>

theorem retreat_also_clears_search:
  "currentStep on_brand_step = 3
   \<and> deviceType props_open = None
   \<and> searchTerm on_brand_step = ''de''
   \<and> searchTerm (fst (prevStep props_open on_brand_step)) = []
   \<and> fst (prevStep props_open on_brand_step)
       \<noteq> (spec_cleared_on_retreat 3 on_brand_step)\<lparr>currentStep := 2\<rparr>"
proof -
  have st: "searchTerm (fst (prevStep props_open on_brand_step)) = []"
    by (simp add: prevStep_def on_brand_step_def Let_def)
  have sp: "searchTerm ((spec_cleared_on_retreat 3 on_brand_step)\<lparr>currentStep := 2\<rparr>) = ''de''"
    by (simp add: spec_cleared_on_retreat_def on_brand_step_def)
  have ne: "fst (prevStep props_open on_brand_step)
       \<noteq> (spec_cleared_on_retreat 3 on_brand_step)\<lparr>currentStep := 2\<rparr>"
  proof
    assume "fst (prevStep props_open on_brand_step)
       = (spec_cleared_on_retreat 3 on_brand_step)\<lparr>currentStep := 2\<rparr>"
    then have "searchTerm (fst (prevStep props_open on_brand_step))
       = searchTerm ((spec_cleared_on_retreat 3 on_brand_step)\<lparr>currentStep := 2\<rparr>)" by simp
    with st sp show False by simp
  qed
  show ?thesis using st ne by (simp add: on_brand_step_def props_open_def)
qed

text \<open>
  Claim C1, amended. From every state N between 2 and 6 (above 2 when a fixed device
  type is supplied), retreating lands on N - 1, clears the selections that the table
  lists for that transition, and also empties the search text; every other field keeps
  its value.
\<close>

theorem prevStep_lands_and_clears:
  assumes "2 \<le> currentStep s" and "currentStep s \<le> 6"
    and "deviceType p \<noteq> None \<longrightarrow> 2 < currentStep s"
  shows "fst (prevStep p s) =
           (spec_cleared_on_retreat (currentStep s) s)
             \<lparr>currentStep := currentStep s - 1, searchTerm := []\<rparr>"
proof -
  have cases: "currentStep s = 2 \<or> currentStep s = 3 \<or> currentStep s = 4
      \<or> currentStep s = 5 \<or> currentStep s = 6"
    using assms(1,2) by arith
  have same: "clearFor (currentStep s - 1) s = spec_cleared_on_retreat (currentStep s) s"
    using cases by (auto simp: clearFor_def spec_cleared_on_retreat_def)
  have nocb: "\<not> (currentStep s - 1 = 1 \<and> deviceType p \<noteq> None \<and> onBackToHome p)"
    using assms(3) by auto
  have "1 < currentStep s" using assms(1) by simp
  then have "prevStep p s =
           ((spec_cleared_on_retreat (currentStep s) s)
              \<lparr>currentStep := currentStep s - 1, searchTerm := []\<rparr>,
            [HistoryReplaceState (currentStep s - 1)])"
    using nocb same by (simp add: prevStep_def Let_def)
  then show ?thesis by simp
qed

theorem prevStep_lands_and_clears_witness:
  "2 \<le> currentStep on_brand_step \<and> currentStep on_brand_step \<le> 6
   \<and> deviceType props_fixed = Some Mobile \<and> 2 < currentStep on_brand_step
   \<and> currentStep (fst (prevStep props_fixed on_brand_step)) = 2
   \<and> selectedSubtype (fst (prevStep props_fixed on_brand_step)) = None
   \<and> selectedDevice (fst (prevStep props_fixed on_brand_step)) = selectedDevice on_brand_step
   \<and> brands (fst (prevStep props_fixed on_brand_step)) = [mkBrand ''Dell'']
   \<and> searchTerm (fst (prevStep props_fixed on_brand_step)) = []"
proof -
  have a: "2 \<le> currentStep on_brand_step" by (simp add: on_brand_step_def)
  have b: "currentStep on_brand_step \<le> 6" by (simp add: on_brand_step_def)
  have c: "deviceType props_fixed \<noteq> None \<longrightarrow> 2 < currentStep on_brand_step"
    by (simp add: on_brand_step_def)
  show ?thesis
    using a b c prevStep_lands_and_clears [OF a b c]
    by (simp add: spec_cleared_on_retreat_def on_brand_step_def props_fixed_def)
qed

text \<open>
  Claim C7, as stated, at a concrete input: the mobile device type is supplied and no
  return callback is. The wizard starts in state 2, and retreating from there reverts it
  to state 1; no callback is invoked.
\<close>

theorem fixed_device_without_callback_reverts:
  "deviceType props_fixed = Some Mobile
   \<and> \<not> onBackToHome props_fixed
   \<and> currentStep (initial props_fixed :: int booking) = 2
   \<and> currentStep (fst (prevStep props_fixed (initial props_fixed :: int booking))) = 1
   \<and> CallOnBackToHome \<notin> set (snd (prevStep props_fixed (initial props_fixed :: int booking)))"
  by (simp add: props_fixed_def initial_def prevStep_def clearFor_def Let_def)

lemma find_device_kind:
  "\<exists>d. find (\<lambda>d. device_kind d = t) devices = Some d \<and> device_kind d = t"
  by (cases t) (simp_all add: devices_def)

text \<open>
  Claim C7, amended. When a fixed device type is supplied, the wizard starts in state 2
  with the device of that type preselected. When the return callback is supplied too,
  retreating from state 2 invokes that callback and nothing else: the wizard stays in
  state 2 with all its fields.
\<close>

theorem fixed_device_entry_and_back:
  assumes "deviceType p = Some t"
  shows "currentStep (initial p :: 'n booking) = 2
       \<and> (\<exists>d. selectedDevice (initial p :: 'n booking) = Some d
              \<and> d \<in> set devices \<and> device_kind d = t)
       \<and> (onBackToHome p \<and> currentStep (s :: 'n booking) = 2 \<longrightarrow>
            prevStep p s = (s, [CallOnBackToHome]))
       \<and> (onBackToHome p \<longrightarrow>
            prevStep p (initial p :: 'n booking) = (initial p, [CallOnBackToHome]))"
proof -
  have a: "currentStep (initial p :: 'n booking) = 2"
    using assms by (simp add: initial_def)
  obtain d where d: "find (\<lambda>d. device_kind d = t) devices = Some d" "device_kind d = t"
    using find_device_kind by blast
  have mem: "d \<in> set devices"
    using d(1) by (auto simp: find_Some_iff)
  have "selectedDevice (initial p :: 'n booking) = Some d"
    using assms d(1) by (simp add: initial_def)
  with d(2) mem have b: "\<exists>d. selectedDevice (initial p :: 'n booking) = Some d
      \<and> d \<in> set devices \<and> device_kind d = t"
    by blast
  have c: "prevStep p x = (x, [CallOnBackToHome])"
    if "onBackToHome p" and "currentStep x = 2" for x :: "'n booking"
    using assms that by (simp add: prevStep_def Let_def)
  have c1: "onBackToHome p \<and> currentStep s = 2 \<longrightarrow> prevStep p s = (s, [CallOnBackToHome])"
    using c by blast
  have c2: "onBackToHome p \<longrightarrow>
      prevStep p (initial p :: 'n booking) = (initial p, [CallOnBackToHome])"
    using c a by blast
  show ?thesis by (intro conjI a b c1 c2)
qed

theorem fixed_device_entry_and_back_witness:
  "deviceType props_fixed_cb = Some Mobile
   \<and> onBackToHome props_fixed_cb
   \<and> currentStep (on_subtype_step\<lparr>selectedSubtype := None\<rparr>) = 2
   \<and> currentStep (initial props_fixed_cb :: int booking) = 2
   \<and> prevStep props_fixed_cb (on_subtype_step\<lparr>selectedSubtype := None\<rparr>)
       = (on_subtype_step\<lparr>selectedSubtype := None\<rparr>, [CallOnBackToHome])
   \<and> prevStep props_fixed_cb (initial props_fixed_cb :: int booking)
       = (initial props_fixed_cb, [CallOnBackToHome])"
proof -
  have p1: "deviceType props_fixed_cb = Some Mobile" by (simp add: props_fixed_cb_def)
  have cb: "onBackToHome props_fixed_cb" by (simp add: props_fixed_cb_def)
  have s2: "currentStep (on_subtype_step\<lparr>selectedSubtype := None\<rparr>) = 2"
    by (simp add: on_subtype_step_def)
  note t = fixed_device_entry_and_back
    [OF p1, where s = "on_subtype_step\<lparr>selectedSubtype := None\<rparr>"]
  have i: "currentStep (initial props_fixed_cb :: int booking) = 2"
    by (rule t [THEN conjunct1])
  have b1: "prevStep props_fixed_cb (on_subtype_step\<lparr>selectedSubtype := None\<rparr>)
       = (on_subtype_step\<lparr>selectedSubtype := None\<rparr>, [CallOnBackToHome])"
    using t [THEN conjunct2, THEN conjunct2, THEN conjunct1] cb s2 by blast
  have b2: "prevStep props_fixed_cb (initial props_fixed_cb :: int booking)
       = (initial props_fixed_cb, [CallOnBackToHome])"
    using t [THEN conjunct2, THEN conjunct2, THEN conjunct2] cb by blast
  show ?thesis by (intro conjI p1 cb s2 i b1 b2)
qed

section \<open>Properties of the brand loader\<close>

text \<open>
  Claim C4, as stated, at a concrete input: a session whose brand list holds one brand.
  A rejected request and a response without success both count as failed loads, and
  after either the brand list still holds that brand: it is not empty.
\<close>

theorem failed_load_keeps_brands:
  "loadFails (Rejected ''Failed to fetch'' :: Brand list response)
   \<and> loadFails (Resolved False (Inr []) :: Brand list response)
   \<and> brands on_brand_step = [mkBrand ''Dell'']
   \<and> brands (fst (fetchBrands_settled (Rejected ''Failed to fetch'') on_brand_step))
       = [mkBrand ''Dell'']
   \<and> brands (fst (fetchBrands_settled (Resolved False (Inr [])) on_brand_step))
       = [mkBrand ''Dell'']
   \<and> brands (fst (fetchBrands_settled (Rejected ''Failed to fetch'') on_brand_step)) \<noteq> []"
  by (simp add: fetchBrands_settled_def brandsFailed_def on_brand_step_def)

text \<open>
  Claim C4, amended. When a brand load fails (the request is rejected, the response is
  not a success, or its body does not parse), the loader sets the user-facing error,
  lowers its busy flag and logs the cause; the brand list keeps the value it had.
\<close>

theorem failed_load_sets_error_only:
  assumes "loadFails r"
  shows "(\<exists>err. fetchBrands_settled r s =
            (s\<lparr>error := Some msg_load_brands,
               isLoading := (isLoading s)\<lparr>loading_brands := False\<rparr>\<rparr>,
             [ConsoleError err]))
       \<and> error (fst (fetchBrands_settled r s)) = Some msg_load_brands
       \<and> brands (fst (fetchBrands_settled r s)) = brands s"
proof (cases r)
  case (Rejected err)
  then show ?thesis by (simp add: fetchBrands_settled_def brandsFailed_def)
next
  case (Resolved ok body)
  show ?thesis
  proof (cases body)
    case (Inl err)
    with Resolved show ?thesis by (simp add: fetchBrands_settled_def brandsFailed_def)
  next
    case (Inr data)
    with Resolved assms have "\<not> ok" by simp
    with Resolved Inr show ?thesis by (simp add: fetchBrands_settled_def brandsFailed_def)
  qed
qed

theorem failed_load_sets_error_only_witness:
  "loadFails (Resolved False (Inr []) :: Brand list response)
   \<and> error (fst (fetchBrands_settled (Resolved False (Inr [])) on_brand_step))
       = Some msg_load_brands
   \<and> brands (fst (fetchBrands_settled (Resolved False (Inr [])) on_brand_step))
       = [mkBrand ''Dell'']"
proof -
  have f: "loadFails (Resolved False (Inr []) :: Brand list response)" by simp
  show ?thesis
    using f failed_load_sets_error_only [OF f, of on_brand_step]
    by (simp add: on_brand_step_def)
qed

text \<open>
  Claim C5. A subtype identifier among mobile, tablet, laptop and console is mapped to
  the category of the same name, and the only effect of starting the load is the brand
  request for that category. For any other identifier the load fails with the invalid
  subtype condition: no request is issued, the condition is logged and the user-facing
  error is set. The four subtypes the wizard offers all have valid identifiers.
\<close>

theorem fetchBrands_category_or_invalid:
  "(subtype_id st \<in> {''mobile'', ''tablet'', ''laptop'', ''console''} \<longrightarrow>
      brandCategory (subtype_id st) = Inr (subtype_id st)
      \<and> snd (fetchBrands st s) = [FetchGet (API_BASE_URL @ ''/brands/'' @ subtype_id st)])
   \<and> (subtype_id st \<notin> {''mobile'', ''tablet'', ''laptop'', ''console''} \<longrightarrow>
      brandCategory (subtype_id st) = Inl msg_invalid_subtype
      \<and> snd (fetchBrands st s) = [ConsoleError msg_invalid_subtype]
      \<and> \<not> list_ex network (snd (fetchBrands st s))
      \<and> error (fst (fetchBrands st s)) = Some msg_load_brands)
   \<and> (\<forall>x \<in> set deviceSubtypes. subtype_id x \<in> {''mobile'', ''tablet'', ''laptop'', ''console''})"
proof -
  have static: "\<forall>x \<in> set deviceSubtypes. subtype_id x \<in> {''mobile'', ''tablet'', ''laptop'', ''console''}"
    unfolding deviceSubtypes_def by simp
  show ?thesis
  proof (cases "subtype_id st \<in> {''mobile'', ''tablet'', ''laptop'', ''console''}")
    case True
    then have c: "brandCategory (subtype_id st) = Inr (subtype_id st)"
      unfolding brandCategory_def by auto
    have "snd (fetchBrands st s) = [FetchGet (API_BASE_URL @ ''/brands/'' @ subtype_id st)]"
      unfolding fetchBrands_def Let_def c by simp
    with True c static show ?thesis by blast
  next
    case False
    then have c: "brandCategory (subtype_id st) = Inl msg_invalid_subtype"
      unfolding brandCategory_def by simp
    have e: "snd (fetchBrands st s) = [ConsoleError msg_invalid_subtype]"
      unfolding fetchBrands_def Let_def c by (simp add: brandsFailed_def)
    have n: "\<not> list_ex network (snd (fetchBrands st s))"
      unfolding e by simp
    have m: "error (fst (fetchBrands st s)) = Some msg_load_brands"
      unfolding fetchBrands_def Let_def c by (simp add: brandsFailed_def)
    from False c e n m static show ?thesis by blast
  qed
qed

theorem fetchBrands_category_or_invalid_witness:
  "subtype_id sub_laptop \<in> {''mobile'', ''tablet'', ''laptop'', ''console''}
   \<and> snd (fetchBrands sub_laptop on_subtype_step) = [FetchGet (API_BASE_URL @ ''/brands/laptop'')]
   \<and> subtype_id sub_watch \<notin> {''mobile'', ''tablet'', ''laptop'', ''console''}
   \<and> snd (fetchBrands sub_watch on_subtype_step) = [ConsoleError msg_invalid_subtype]
   \<and> sub_laptop \<in> set deviceSubtypes
   \<and> subtype_id sub_laptop = ''laptop''"
proof -
  have l: "subtype_id sub_laptop = ''laptop''" by (simp add: sub_laptop_def)
  have w: "subtype_id sub_watch = ''watch''" by (simp add: sub_watch_def)
  have lv: "subtype_id sub_laptop \<in> {''mobile'', ''tablet'', ''laptop'', ''console''}"
    unfolding l by simp
  have wv: "subtype_id sub_watch \<notin> {''mobile'', ''tablet'', ''laptop'', ''console''}"
    unfolding w by simp
  have m: "sub_laptop \<in> set deviceSubtypes" by (simp add: deviceSubtypes_def sub_laptop_def)
  note t1 = fetchBrands_category_or_invalid [of sub_laptop on_subtype_step]
  note t2 = fetchBrands_category_or_invalid [of sub_watch on_subtype_step]
  have r1: "snd (fetchBrands sub_laptop on_subtype_step) = [FetchGet (API_BASE_URL @ ''/brands/laptop'')]"
    using t1 [THEN conjunct1] lv unfolding l by simp
  have r2: "snd (fetchBrands sub_watch on_subtype_step) = [ConsoleError msg_invalid_subtype]"
    using t2 [THEN conjunct2, THEN conjunct1] wv by blast
  show ?thesis by (intro conjI lv r1 wv r2 m l)
qed

subsection \<open>Replies out of order\<close>

lemma run_snoc: "run p (evs @ [ev]) r = andThen (run p evs r) (step p ev)"
  by (induction evs arbitrary: r) simp_all

lemma replied_sets_brands: "brands (fst (andThen r (step p (replied data)))) = data"
  by (cases r) (simp add: andThen_def replied_def fetchBrands_settled_def)

lemma last_reply_sets_brands:
  "brands (fst (run p (evs @ [replied data]) r)) = data"
  unfolding run_snoc by (rule replied_sets_brands)

lemma selecting_from_subtype_step:
  assumes "currentStep s = 2"
  shows "run p selecting (s, []) =
    (s\<lparr>currentStep := 3, selectedSubtype := Some sub_laptop, selectedBrand := None,
       selectedRepairDoc := None, selectedServices := [], searchTerm := [],
       isLoading := (isLoading s)\<lparr>loading_brands := True\<rparr>, error := None\<rparr>,
     [HistoryPushState 3, FetchGet (API_BASE_URL @ ''/brands/mobile''), HistoryPushState 3,
      HistoryReplaceState 2, HistoryPushState 2,
      HistoryPushState 3, FetchGet (API_BASE_URL @ ''/brands/laptop''), HistoryPushState 3])"
proof -
  let ?s1 = "s\<lparr>selectedSubtype := Some sub_mobile, currentStep := 3, searchTerm := [],
      isLoading := (isLoading s)\<lparr>loading_brands := True\<rparr>, error := None\<rparr>"
  have c1: "step p (ChooseSubtype sub_mobile) s =
      (?s1, [HistoryPushState 3, FetchGet (API_BASE_URL @ ''/brands/mobile''),
             HistoryPushState 3])"
    using assms
    by (simp add: andThen_def nextStep_def subtypeEffect_def fetchBrands_def Let_def
        brandCategory_def sub_mobile_def stepEffect_def)
  let ?s2 = "s\<lparr>selectedSubtype := None, selectedBrand := None, selectedRepairDoc := None,
      selectedServices := [], currentStep := 2, searchTerm := [],
      isLoading := (isLoading s)\<lparr>loading_brands := True\<rparr>, error := None\<rparr>"
  have c2: "step p Back ?s1 = (?s2, [HistoryReplaceState 2, HistoryPushState 2])"
    by (simp add: andThen_def prevStep_def clearFor_def subtypeEffect_def Let_def
        stepEffect_def)
  let ?s3 = "s\<lparr>currentStep := 3, selectedSubtype := Some sub_laptop, selectedBrand := None,
       selectedRepairDoc := None, selectedServices := [], searchTerm := [],
       isLoading := (isLoading s)\<lparr>loading_brands := True\<rparr>, error := None\<rparr>"
  have c3: "step p (ChooseSubtype sub_laptop) ?s2 =
      (?s3, [HistoryPushState 3, FetchGet (API_BASE_URL @ ''/brands/laptop''),
             HistoryPushState 3])"
    by (simp add: andThen_def nextStep_def subtypeEffect_def fetchBrands_def Let_def
        brandCategory_def sub_laptop_def stepEffect_def)
  show ?thesis
    unfolding selecting_def run.simps
    by (simp add: andThen_def c1 c2 c3 del: step.simps)
qed

lemma run_append: "run p (evs @ evs') r = run p evs' (run p evs r)"
  by (induction evs arbitrary: r) simp_all

lemma replied_keeps_subtype:
  "selectedSubtype (fst (andThen r (step p (replied data)))) = selectedSubtype (fst r)"
  by (cases r) (simp add: andThen_def replied_def fetchBrands_settled_def)

lemma replied_requests_nothing:
  "filter network (snd (andThen r (step p (replied data)))) = filter network (snd r)"
  by (cases r) (simp add: andThen_def replied_def fetchBrands_settled_def)

lemma two_replies_keep_subtype:
  "selectedSubtype (fst (run p (evs @ [replied a, replied b]) r)) = selectedSubtype (fst (run p evs r))"
proof -
  have "run p (evs @ [replied a, replied b]) r
      = andThen (andThen (run p evs r) (step p (replied a))) (step p (replied b))"
    unfolding run_append by simp
  then show ?thesis by (simp only: replied_keeps_subtype)
qed

lemma two_replies_last_brands:
  "brands (fst (run p (evs @ [replied a, replied b]) r)) = b"
proof -
  have "evs @ [replied a, replied b] = (evs @ [replied a]) @ [replied b]" by simp
  then show ?thesis by (simp only: last_reply_sets_brands)
qed

text \<open>
  Claim C8, as stated, at a concrete input: from the subtype step the mobile subtype is
  chosen, then the laptop subtype, and the laptop reply (Dell) arrives before the mobile
  reply (Apple). The selected subtype is laptop, yet the brand list is the mobile one.
\<close>

theorem stale_reply_overwrites_brands:
  "currentStep on_subtype_step = 2
   \<and> selectedSubtype
        (fst (run props_open (selecting @ [replied [mkBrand ''Dell''], replied [mkBrand ''Apple'']])
                (on_subtype_step, []))) = Some sub_laptop
   \<and> brands
        (fst (run props_open (selecting @ [replied [mkBrand ''Dell''], replied [mkBrand ''Apple'']])
                (on_subtype_step, []))) = [mkBrand ''Apple'']
   \<and> brands
        (fst (run props_open (selecting @ [replied [mkBrand ''Dell''], replied [mkBrand ''Apple'']])
                (on_subtype_step, []))) \<noteq> [mkBrand ''Dell'']"
proof -
  have a: "currentStep on_subtype_step = 2" by (simp add: on_subtype_step_def)
  have b: "selectedSubtype
        (fst (run props_open (selecting @ [replied [mkBrand ''Dell''], replied [mkBrand ''Apple'']])
                (on_subtype_step, []))) = Some sub_laptop"
    unfolding two_replies_keep_subtype selecting_from_subtype_step [OF a] by simp
  have c: "brands
        (fst (run props_open (selecting @ [replied [mkBrand ''Dell''], replied [mkBrand ''Apple'']])
                (on_subtype_step, []))) = [mkBrand ''Apple'']"
    by (rule two_replies_last_brands)
  have d: "[mkBrand ''Apple''] \<noteq> [mkBrand ''Dell'']" by (simp add: mkBrand_def)
  show ?thesis using a b c d by simp
qed

text \<open>
  Claim C8, amended. Changing the subtype from mobile to laptop issues both brand
  requests and cancels neither; the final brand list is the body of whichever reply is
  handled last: the laptop list when the laptop reply comes last, the mobile list when
  the mobile reply comes last, the selected subtype being laptop in both cases.
\<close>

theorem brand_list_follows_last_reply:
  assumes "currentStep s = 2"
  shows "filter network (snd (run p selecting (s, []))) =
           [FetchGet (API_BASE_URL @ ''/brands/mobile''), FetchGet (API_BASE_URL @ ''/brands/laptop'')]
       \<and> selectedSubtype (fst (run p (selecting @ [replied bm, replied bl]) (s, []))) = Some sub_laptop
       \<and> brands (fst (run p (selecting @ [replied bm, replied bl]) (s, []))) = bl
       \<and> selectedSubtype (fst (run p (selecting @ [replied bl, replied bm]) (s, []))) = Some sub_laptop
       \<and> brands (fst (run p (selecting @ [replied bl, replied bm]) (s, []))) = bm
       \<and> filter network (snd (run p (selecting @ [replied bl, replied bm]) (s, []))) =
           filter network (snd (run p selecting (s, [])))"
proof -
  note sel = selecting_from_subtype_step [OF assms, of p]
  have a: "filter network (snd (run p selecting (s, []))) =
           [FetchGet (API_BASE_URL @ ''/brands/mobile''), FetchGet (API_BASE_URL @ ''/brands/laptop'')]"
    unfolding sel by simp
  have b: "selectedSubtype (fst (run p (selecting @ [replied x, replied y]) (s, []))) = Some sub_laptop"
    for x y
    unfolding two_replies_keep_subtype sel by simp
  have c: "brands (fst (run p (selecting @ [replied x, replied y]) (s, []))) = y" for x y
    by (rule two_replies_last_brands)
  have "run p (selecting @ [replied bl, replied bm]) (s, [])
      = andThen (andThen (run p selecting (s, [])) (step p (replied bl))) (step p (replied bm))"
    unfolding run_append by simp
  then have d: "filter network (snd (run p (selecting @ [replied bl, replied bm]) (s, []))) =
           filter network (snd (run p selecting (s, [])))"
    by (simp only: replied_requests_nothing)
  show ?thesis by (intro conjI a b c d)
qed

theorem brand_list_follows_last_reply_witness:
  "currentStep on_subtype_step = 2
   \<and> brands (fst (run props_open (selecting @ [replied [mkBrand ''Apple''], replied [mkBrand ''Dell'']])
                (on_subtype_step, []))) = [mkBrand ''Dell'']
   \<and> brands (fst (run props_open (selecting @ [replied [mkBrand ''Dell''], replied [mkBrand ''Apple'']])
                (on_subtype_step, []))) = [mkBrand ''Apple'']"
proof -
  have a: "currentStep on_subtype_step = 2" by (simp add: on_subtype_step_def)
  note t = brand_list_follows_last_reply [OF a, of props_open "[mkBrand ''Apple'']" "[mkBrand ''Dell'']"]
  show ?thesis
    by (intro conjI a t [THEN conjunct2, THEN conjunct2, THEN conjunct1]
        t [THEN conjunct2, THEN conjunct2, THEN conjunct2, THEN conjunct2, THEN conjunct1])
qed

section \<open>Properties of submission\<close>

text \<open>
  Claim C3. Submitting issues a network call exactly when the date, the time, the name
  and the email are non-empty and a repair document is selected. Otherwise nothing is
  requested and the state is the old one with only the error slot set, to one of two
  messages; with an empty date that is the required-fields message.
\<close>

theorem handleSubmit_validates_before_request:
  "list_ex network (snd (handleSubmit now s)) =
     (date (appointmentData s) \<noteq> [] \<and> time (appointmentData s) \<noteq> []
      \<and> name (appointmentData s) \<noteq> [] \<and> email (appointmentData s) \<noteq> []
      \<and> selectedRepairDoc s \<noteq> None)
   \<and> (\<not> list_ex network (snd (handleSubmit now s)) \<longrightarrow>
         snd (handleSubmit now s) = [PreventDefault]
         \<and> (fst (handleSubmit now s) = s\<lparr>error := Some msg_required\<rparr>
            \<or> fst (handleSubmit now s) = s\<lparr>error := Some msg_no_document\<rparr>))
   \<and> (date (appointmentData s) = [] \<longrightarrow>
         handleSubmit now s = (s\<lparr>error := Some msg_required\<rparr>, [PreventDefault]))"
proof -
  let ?blank = "date (appointmentData s) = [] \<or> time (appointmentData s) = [] \<or>
        name (appointmentData s) = [] \<or> email (appointmentData s) = []"
  have blank: "?blank \<Longrightarrow>
      handleSubmit now s = (s\<lparr>error := Some msg_required\<rparr>, [PreventDefault])"
    unfolding handleSubmit_def by (rule if_P)
  have nodoc: "\<not> ?blank \<Longrightarrow> selectedRepairDoc s = None \<Longrightarrow>
      handleSubmit now s = (s\<lparr>error := Some msg_no_document\<rparr>, [PreventDefault])"
    unfolding handleSubmit_def by (simp only: if_False option.case)
  have sent: "\<not> ?blank \<Longrightarrow> selectedRepairDoc s = Some doc \<Longrightarrow>
      snd (handleSubmit now s) =
        [PreventDefault,
         FetchPost (API_BASE_URL @ ''/appointments'') (appointmentPayload now doc s)]" for doc
    unfolding handleSubmit_def by (simp only: if_False option.case snd_conv)
  have third: "date (appointmentData s) = [] \<longrightarrow>
         handleSubmit now s = (s\<lparr>error := Some msg_required\<rparr>, [PreventDefault])"
    using blank by blast
  show ?thesis
  proof (cases ?blank)
    case True
    have e: "snd (handleSubmit now s) = [PreventDefault]"
      and f: "fst (handleSubmit now s) = s\<lparr>error := Some msg_required\<rparr>"
      using blank [OF True] by simp_all
    have n: "\<not> list_ex network (snd (handleSubmit now s))" unfolding e by simp
    from True e f n third show ?thesis by blast
  next
    case False
    show ?thesis
    proof (cases "selectedRepairDoc s")
      case None
      have e: "snd (handleSubmit now s) = [PreventDefault]"
        and f: "fst (handleSubmit now s) = s\<lparr>error := Some msg_no_document\<rparr>"
        using nodoc [OF False None] by simp_all
      have n: "\<not> list_ex network (snd (handleSubmit now s))" unfolding e by simp
      from False None e f n third show ?thesis by blast
    next
      case (Some doc)
      have n: "list_ex network (snd (handleSubmit now s))"
        unfolding sent [OF False Some] by simp
      have d: "selectedRepairDoc s \<noteq> None" using Some by simp
      from False d n third show ?thesis by blast
    qed
  qed
qed

theorem handleSubmit_validates_before_request_witness:
  "date (appointmentData missing_date) = []
   \<and> handleSubmit ''t'' missing_date
       = (missing_date\<lparr>error := Some msg_required\<rparr>, [PreventDefault])
   \<and> \<not> list_ex network (snd (handleSubmit ''t'' missing_date))
   \<and> snd (handleSubmit ''t'' missing_date) = [PreventDefault]"
proof -
  note t = handleSubmit_validates_before_request [of "''t''" missing_date]
  have d: "date (appointmentData missing_date) = []"
    by (simp add: missing_date_def)
  have h: "handleSubmit ''t'' missing_date
       = (missing_date\<lparr>error := Some msg_required\<rparr>, [PreventDefault])"
    using t [THEN conjunct2, THEN conjunct2] d by (rule mp)
  have n: "\<not> list_ex network (snd (handleSubmit ''t'' missing_date))"
    unfolding h by simp
  have e: "snd (handleSubmit ''t'' missing_date) = [PreventDefault]"
    using t [THEN conjunct2, THEN conjunct1] n by blast
  show ?thesis by (intro conjI d h n e)
qed

text \<open>
  The state after the reset is the initial state in every field of the session; the
  device is kept when a device type is fixed, and the loaded lists, the busy flags, the
  error slot and the viewport flag keep their values.
\<close>

lemma successTimeout_restores_initial:
  "successTimeout p s' =
     (initial p)
       \<lparr>selectedDevice := (if deviceType p = None then None else selectedDevice s'),
        isMobile := isMobile s', brands := brands s', repairDocs := repairDocs s',
        isLoading := isLoading s', error := error s'\<rparr>"
  by (cases s') (simp add: successTimeout_def resetForm_def initial_def)

text \<open>
  Claim C6. A submission that passes validation posts the appointment; on a successful
  reply the confirmation is shown and a timer of 3000 ms is set. When the timer fires,
  the confirmation is hidden and the session is reset: the step is 2 with the device
  kept when a device type was supplied, otherwise 1 with the device cleared; subtype,
  brand, repair document, selected services, appointment form and search filter are
  cleared.
\<close>

theorem success_shows_popup_then_resets:
  assumes "date (appointmentData s) \<noteq> []" and "time (appointmentData s) \<noteq> []"
    and "name (appointmentData s) \<noteq> []" and "email (appointmentData s) \<noteq> []"
    and "selectedRepairDoc s = Some doc"
  shows "snd (handleSubmit now s) =
           [PreventDefault,
            FetchPost (API_BASE_URL @ ''/appointments'') (appointmentPayload now doc s)]
       \<and> handleSubmit_settled (Resolved True (Inr reply)) (fst (handleSubmit now s)) =
           (s\<lparr>isLoading := (isLoading s)\<lparr>submitting := False\<rparr>, error := None,
              showSuccessPopup := True\<rparr>,
            [ConsoleLog, SetTimeout 3000])
       \<and> successTimeout p s' =
           s'\<lparr>showSuccessPopup := False,
              currentStep := (if deviceType p = None then 1 else 2),
              selectedDevice := (if deviceType p = None then None else selectedDevice s'),
              selectedSubtype := None, selectedBrand := None, selectedRepairDoc := None,
              selectedServices := [], appointmentData := emptyAppointment, searchTerm := []\<rparr>
       \<and> successTimeout p s' =
           (initial p)
             \<lparr>selectedDevice := (if deviceType p = None then None else selectedDevice s'),
              isMobile := isMobile s', brands := brands s', repairDocs := repairDocs s',
              isLoading := isLoading s', error := error s'\<rparr>"
proof -
  have h: "handleSubmit now s =
      (s\<lparr>isLoading := (isLoading s)\<lparr>submitting := True\<rparr>, error := None\<rparr>,
       [PreventDefault,
        FetchPost (API_BASE_URL @ ''/appointments'') (appointmentPayload now doc s)])"
    unfolding handleSubmit_def using assms by simp
  have a: "snd (handleSubmit now s) =
           [PreventDefault,
            FetchPost (API_BASE_URL @ ''/appointments'') (appointmentPayload now doc s)]"
    unfolding h by simp
  have b: "handleSubmit_settled (Resolved True (Inr reply)) (fst (handleSubmit now s)) =
           (s\<lparr>isLoading := (isLoading s)\<lparr>submitting := False\<rparr>, error := None,
              showSuccessPopup := True\<rparr>,
            [ConsoleLog, SetTimeout 3000])"
    unfolding h by (simp add: handleSubmit_settled_def)
  have c: "successTimeout p s' =
           s'\<lparr>showSuccessPopup := False,
              currentStep := (if deviceType p = None then 1 else 2),
              selectedDevice := (if deviceType p = None then None else selectedDevice s'),
              selectedSubtype := None, selectedBrand := None, selectedRepairDoc := None,
              selectedServices := [], appointmentData := emptyAppointment, searchTerm := []\<rparr>"
    by (simp add: successTimeout_def resetForm_def)
  show ?thesis by (intro conjI a b c successTimeout_restores_initial)
qed

theorem success_shows_popup_then_resets_witness:
  "date (appointmentData ready_to_submit) \<noteq> [] \<and> time (appointmentData ready_to_submit) \<noteq> []
   \<and> name (appointmentData ready_to_submit) \<noteq> [] \<and> email (appointmentData ready_to_submit) \<noteq> []
   \<and> selectedRepairDoc ready_to_submit = Some (doc_ab 50 30)
   \<and> showSuccessPopup
        (fst (handleSubmit_settled (Resolved True (Inr None))
               (fst (handleSubmit ''t'' ready_to_submit))))
   \<and> deviceType props_open = None
   \<and> currentStep (successTimeout props_open ready_to_submit) = 1
   \<and> selectedDevice (successTimeout props_open ready_to_submit) = None
   \<and> deviceType props_fixed = Some Mobile
   \<and> currentStep (successTimeout props_fixed ready_to_submit) = 2
   \<and> selectedDevice (successTimeout props_fixed ready_to_submit) = selectedDevice ready_to_submit"
proof -
  have d: "date (appointmentData ready_to_submit) \<noteq> []"
    by (simp add: ready_to_submit_def filled_form_def)
  have t: "time (appointmentData ready_to_submit) \<noteq> []"
    by (simp add: ready_to_submit_def filled_form_def)
  have n: "name (appointmentData ready_to_submit) \<noteq> []"
    by (simp add: ready_to_submit_def filled_form_def)
  have e: "email (appointmentData ready_to_submit) \<noteq> []"
    by (simp add: ready_to_submit_def filled_form_def)
  have r: "selectedRepairDoc ready_to_submit = Some (doc_ab 50 30)"
    by (simp add: ready_to_submit_def)
  have o: "deviceType props_open = None" by (simp add: props_open_def)
  have f: "deviceType props_fixed = Some Mobile" by (simp add: props_fixed_def)
  note t1 = success_shows_popup_then_resets [OF d t n e r, of "''t''" None props_open ready_to_submit]
  note t2 = success_shows_popup_then_resets [OF d t n e r, of "''t''" None props_fixed ready_to_submit]
  have pop: "showSuccessPopup
        (fst (handleSubmit_settled (Resolved True (Inr None))
               (fst (handleSubmit ''t'' ready_to_submit))))"
    unfolding t1 [THEN conjunct2, THEN conjunct1] by simp
  have o1: "currentStep (successTimeout props_open ready_to_submit) = 1"
    unfolding t1 [THEN conjunct2, THEN conjunct2, THEN conjunct1] using o by simp
  have o2: "selectedDevice (successTimeout props_open ready_to_submit) = None"
    unfolding t1 [THEN conjunct2, THEN conjunct2, THEN conjunct1] using o by simp
  have f1: "currentStep (successTimeout props_fixed ready_to_submit) = 2"
    unfolding t2 [THEN conjunct2, THEN conjunct2, THEN conjunct1] using f by simp
  have f2: "selectedDevice (successTimeout props_fixed ready_to_submit) = selectedDevice ready_to_submit"
    unfolding t2 [THEN conjunct2, THEN conjunct2, THEN conjunct1] using f by simp
  show ?thesis by (intro conjI d t n e r pop o o1 o2 f f1 f2)
qed

end
